theory Spec2Isabelle
  imports Complex_Main "HOL-Library.Word"
begin

section \<open>Model constants (MPC.cpp, lines 14-41)\<close>

text \<open>
  The source computes in \<open>double\<close> and \<open>AD<double>\<close>; both are modelled by \<open>real\<close>, so
  rounding, infinities and NaN are outside this development. Indices are \<open>size_t\<close>, taken
  as 64-bit words: in \<open>x_start + t - 1\<close> the \<open>int\<close> counter is converted to \<open>size_t\<close>
  and the arithmetic wraps modulo \<open>2 ^ 64\<close>.
\<close>

definition N :: "64 word" where
  "N = 10"

definition dt :: real where
  "dt = 1 / 10"

definition Lf :: real where
  "Lf = 267 / 100"

definition ref_v :: real where
  "ref_v = 120"

definition x_start :: "64 word" where
  "x_start = 0"

definition y_start :: "64 word" where
  "y_start = x_start + N"

definition psi_start :: "64 word" where
  "psi_start = y_start + N"

definition v_start :: "64 word" where
  "v_start = psi_start + N"

definition cte_start :: "64 word" where
  "cte_start = v_start + N"

definition epsi_start :: "64 word" where
  "epsi_start = cte_start + N"

definition delta_start :: "64 word" where
  "delta_start = epsi_start + N"

definition a_start :: "64 word" where
  "a_start = delta_start + N - 1"

section \<open>Vector accesses\<close>

text \<open>
  \<open>CPPAD_TESTVECTOR\<close> is CppAD's own vector, which is not part of the repository. Its
  \<open>operator[]\<close> stops the program when the index is not below the size and CppAD's
  assertions are compiled in, and reads without a check otherwise. What a read beyond the
  end gives is therefore a parameter \<open>oob\<close> of the model: \<open>None\<close> when the access is
  trapped, \<open>Some r\<close> when the unchecked read finds the value \<open>r\<close>. A write beyond the end
  is always a fault, and so is an Eigen read (\<open>coeffs[i]\<close>, \<open>state[i]\<close>) beyond the end.
\<close>

datatype error = VectorIndex "64 word" | EigenIndex

type_synonym oob = "64 word \<Rightarrow> real option"

definition bnd :: "error + 'a \<Rightarrow> ('a \<Rightarrow> error + 'b) \<Rightarrow> error + 'b" where
  "bnd m f = (case m of Inl e \<Rightarrow> Inl e | Inr a \<Rightarrow> f a)"

definition rd :: "oob \<Rightarrow> real list \<Rightarrow> 64 word \<Rightarrow> error + real" where
  "rd oob vs i =
     (if unat i < length vs then Inr (vs ! unat i)
      else (case oob i of None \<Rightarrow> Inl (VectorIndex i) | Some r \<Rightarrow> Inr r))"

definition wr :: "real list \<Rightarrow> 64 word \<Rightarrow> real \<Rightarrow> error + real list" where
  "wr vs i r = (if unat i < length vs then Inr (vs[unat i := r]) else Inl (VectorIndex i))"

definition eigen_rd :: "real list \<Rightarrow> nat \<Rightarrow> error + real" where
  "eigen_rd vs i = (if i < length vs then Inr (vs ! i) else Inl EigenIndex)"

section \<open>The evaluator \<open>FG_eval::operator()\<close> (lines 50-97)\<close>

text \<open>The seven weights are declared in the source and used nowhere.\<close>

definition cte_cost_weight :: int where
  "cte_cost_weight = 2000"

definition epsi_cost_weight :: int where
  "epsi_cost_weight = 2000"

definition v_cost_weight :: int where
  "v_cost_weight = 1"

definition delta_cost_weight :: int where
  "delta_cost_weight = 10"

definition a_cost_weight :: int where
  "a_cost_weight = 10"

definition delta_change_cost_weight :: int where
  "delta_change_cost_weight = 100"

definition a_change_cost_weight :: int where
  "a_change_cost_weight = 10"

text \<open>
  One iteration of the loop of lines 65-96, for the counter \<open>t\<close> already converted to
  \<open>size_t\<close>. All fourteen reads of \<open>vars\<close> come first, in the order of the source, then the
  reads of \<open>coeffs\<close>, then the six writes to \<open>fg\<close>.
\<close>

definition fg_body :: "oob \<Rightarrow> real list \<Rightarrow> real list \<Rightarrow> 64 word \<Rightarrow> real list \<Rightarrow> error + real list" where
  "fg_body oob coeffs vars t fg =
     bnd (rd oob vars (x_start + t)) (\<lambda>x1.
     bnd (rd oob vars (y_start + t)) (\<lambda>y1.
     bnd (rd oob vars (psi_start + t)) (\<lambda>psi1.
     bnd (rd oob vars (v_start + t)) (\<lambda>v1.
     bnd (rd oob vars (cte_start + t)) (\<lambda>cte1.
     bnd (rd oob vars (epsi_start + t)) (\<lambda>epsi1.
     bnd (rd oob vars (x_start + t - 1)) (\<lambda>x0.
     bnd (rd oob vars (y_start + t - 1)) (\<lambda>y0.
     bnd (rd oob vars (psi_start + t - 1)) (\<lambda>psi0.
     bnd (rd oob vars (v_start + t - 1)) (\<lambda>v0.
     bnd (rd oob vars (cte_start + t - 1)) (\<lambda>cte0.
     bnd (rd oob vars (epsi_start + t - 1)) (\<lambda>epsi0.
     bnd (rd oob vars (delta_start + t - 1)) (\<lambda>delta0.
     bnd (rd oob vars (a_start + t - 1)) (\<lambda>a0.
     bnd (eigen_rd coeffs 0) (\<lambda>c0.
     bnd (eigen_rd coeffs 1) (\<lambda>c1.
     bnd (eigen_rd coeffs 2) (\<lambda>c2.
     bnd (eigen_rd coeffs 3) (\<lambda>c3.
     let f0 = c0 + c1 * x0 + c2 * x0 ^ 2 + c3 * x0 ^ 3;
         psi_des0 = arctan (c1 + 2 * c2 * x0 + 3 * c3 * x0 ^ 2)
     in
     bnd (wr fg (1 + x_start + t) (x1 - (x0 + v0 * cos psi0 * dt))) (\<lambda>fg.
     bnd (wr fg (1 + y_start + t) (y1 - (y0 + v0 * sin psi0 * dt))) (\<lambda>fg.
     bnd (wr fg (1 + psi_start + t) (psi1 - (psi0 - v0 * delta0 / Lf * dt))) (\<lambda>fg.
     bnd (wr fg (1 + v_start + t) (v1 - (v0 + a0 * dt))) (\<lambda>fg.
     bnd (wr fg (1 + cte_start + t) (cte1 - ((f0 - y0) + (v0 * sin epsi0 * dt)))) (\<lambda>fg.
     wr fg (1 + epsi_start + t) (epsi1 - ((psi0 - psi_des0) - v0 * delta0 / Lf * dt))
     )))))))))))))))))))))))"

text \<open>
  The loop \<open>for (int t = 0; t < N; t++)\<close>. It returns \<open>fg\<close> as the last completed
  iteration left it, and the fault that stopped it, if one did; the program stops at a
  fault, so what the interrupted iteration had written is not observed.
\<close>

function fg_loop :: "oob \<Rightarrow> real list \<Rightarrow> real list \<Rightarrow> 64 word \<Rightarrow> real list \<Rightarrow> real list \<times> error option" where
  "fg_loop oob coeffs vars t fg =
     (if t < N then
        (case fg_body oob coeffs vars t fg of
           Inl e \<Rightarrow> (fg, Some e)
         | Inr fg' \<Rightarrow> fg_loop oob coeffs vars (t + 1) fg')
      else (fg, None))"
  by pat_completeness auto
termination
proof (relation "measure (\<lambda>(oob, coeffs, vars, t, fg). unat (N - t))")
  show "wf (measure (\<lambda>(oob, coeffs, vars, t, fg). unat (N - t)))"
    by simp
next
  fix oob :: oob and coeffs vars fg x2 :: "real list" and t :: "64 word"
  assume "t < N"
  then have "unat (N - (t + 1)) < unat (N - t)"
    by unat_arith
  then show "((oob, coeffs, vars, t + 1, x2), (oob, coeffs, vars, t, fg))
      \<in> measure (\<lambda>(oob, coeffs, vars, t, fg). unat (N - t))"
    by simp
qed

declare fg_loop.simps [simp del]

definition FG_eval :: "oob \<Rightarrow> real list \<Rightarrow> real list \<Rightarrow> real list \<Rightarrow> real list \<times> error option" where
  "FG_eval oob coeffs fg vars =
     (case wr fg 0 0 of
        Inl e \<Rightarrow> (fg, Some e)
      | Inr fg0 \<Rightarrow> fg_loop oob coeffs vars 0 fg0)"

text \<open>
  The residual slots that the iteration for step \<open>s\<close> writes: \<open>1 + block_start + s\<close> for
  the six blocks.
\<close>

definition slots :: "nat \<Rightarrow> nat set" where
  "slots s = {1 + s, 11 + s, 21 + s, 31 + s, 41 + s, 51 + s}"

section \<open>\<open>MPC::Solve\<close> (lines 106-214)\<close>

text \<open>
  The solver is CppAD's interface to Ipopt, outside the repository: it is a parameter of
  the model, a function from the eight arguments of the call to the \<open>solve_result\<close> it
  fills in. Of that structure the fields that \<open>Solve\<close> reads are kept; the field names carry
  the prefix \<open>sol_\<close>, since \<open>x\<close> alone would capture the variable of that name.
\<close>

datatype status_type =
    not_defined | success | maxiter_exceeded | stop_at_tiny_step | stop_at_acceptable_point
  | local_infeasibility | user_requested_stop | feasible_point_found | diverging_iterates
  | restoration_failure | error_in_step_computation | invalid_number_detected
  | too_few_degrees_of_freedom | internal_error | unknown

record solve_result =
  sol_status :: status_type
  sol_x :: "real list"
  sol_obj_value :: real

type_synonym fg_eval = "real list \<Rightarrow> real list \<Rightarrow> real list \<times> error option"

type_synonym solver =
  "string \<Rightarrow> real list \<Rightarrow> real list \<Rightarrow> real list \<Rightarrow> real list \<Rightarrow> real list \<Rightarrow> fg_eval
     \<Rightarrow> solve_result"

definition n_vars :: "64 word" where
  "n_vars = N * 6 + (N - 1) * 2"

definition n_constraints :: "64 word" where
  "n_constraints = N * 6"

text \<open>
  \<open>Dvector v(n)\<close> gives a vector of \<open>n\<close> entries whose content is not set; every entry is
  assigned by a loop before anything reads it, so the model starts from zeros.
\<close>

definition Dvector :: "64 word \<Rightarrow> real list" where
  "Dvector n = replicate (unat n) 0"

text \<open>
  \<open>for (int i = lo; i < hi; i++) v[i] = c\<close>. Each of lines 133-153 that iterates assigns a
  lower and an upper vector in one body; the two vectors are independent, so each is
  assigned by one call of \<open>set_loop\<close>.
  All indices are below the size the vector was created with.
\<close>

function set_loop :: "64 word \<Rightarrow> 64 word \<Rightarrow> real \<Rightarrow> real list \<Rightarrow> real list" where
  "set_loop i n c vs = (if i < n then set_loop (i + 1) n c (vs[unat i := c]) else vs)"
  by pat_completeness auto
termination
proof (relation "measure (\<lambda>(i, n, c, vs). unat (n - i))")
  show "wf (measure (\<lambda>(i, n, c, vs). unat (n - i)))"
    by simp
next
  fix i n :: "64 word" and c :: real and vs :: "real list"
  assume "i < n"
  then have "unat (n - (i + 1)) < unat (n - i)"
    by unat_arith
  then show "((i + 1, n, c, vs[unat i := c]), (i, n, c, vs)) \<in> measure (\<lambda>(i, n, c, vs). unat (n - i))"
    by simp
qed

declare set_loop.simps [simp del]

definition initial_vars :: "real list" where
  "initial_vars = set_loop 0 n_vars 0 (Dvector n_vars)"

definition vars_lowerbound :: "real list" where
  "vars_lowerbound =
     set_loop a_start n_vars (- 1)
       (set_loop delta_start a_start (- (436332 / 1000000) * Lf)
          (set_loop 0 delta_start (- 10000000000000000000) (Dvector n_vars)))"

definition vars_upperbound :: "real list" where
  "vars_upperbound =
     set_loop a_start n_vars 1
       (set_loop delta_start a_start (43632 / 100000 * Lf)
          (set_loop 0 delta_start 10000000000000000000 (Dvector n_vars)))"

definition constraints_lowerbound :: "real \<Rightarrow> real \<Rightarrow> real \<Rightarrow> real \<Rightarrow> real \<Rightarrow> real \<Rightarrow> real list" where
  "constraints_lowerbound x y psi v cte epsi =
     (set_loop 0 n_constraints 0 (Dvector n_constraints))
       [unat x_start := x, unat y_start := y, unat psi_start := psi, unat v_start := v,
        unat cte_start := cte, unat epsi_start := epsi]"

definition constraints_upperbound :: "real \<Rightarrow> real \<Rightarrow> real \<Rightarrow> real \<Rightarrow> real \<Rightarrow> real \<Rightarrow> real list" where
  "constraints_upperbound x y psi v cte epsi =
     (set_loop 0 n_constraints 0 (Dvector n_constraints))
       [unat x_start := x, unat y_start := y, unat psi_start := psi, unat v_start := v,
        unat cte_start := cte, unat epsi_start := epsi]"

definition options :: string where
  "options =
     ''Integer print_level  0'' @ [CHR 0x0A] @
     ''Sparse  true        forward'' @ [CHR 0x0A] @
     ''Sparse  true        reverse'' @ [CHR 0x0A] @
     ''Numeric max_cpu_time          0.5'' @ [CHR 0x0A]"

text \<open>The loop of lines 209-212, appending to \<open>result\<close>.\<close>

function result_loop :: "oob \<Rightarrow> real list \<Rightarrow> 64 word \<Rightarrow> real list \<Rightarrow> error + real list" where
  "result_loop oob xs i result =
     (if i < N - 2 then
        (case rd oob xs (x_start + i + 1) of
           Inl e \<Rightarrow> Inl e
         | Inr px \<Rightarrow>
             (case rd oob xs (y_start + i + 1) of
                Inl e \<Rightarrow> Inl e
              | Inr py \<Rightarrow> result_loop oob xs (i + 1) (result @ [px, py])))
      else Inr result)"
  by pat_completeness auto
termination
proof (relation "measure (\<lambda>(oob, xs, i, result). unat (N - 2 - i))")
  show "wf (measure (\<lambda>(oob, xs, i, result). unat (N - 2 - i)))"
    by simp
next
  fix oob :: oob and xs result :: "real list" and i :: "64 word" and px py :: real
  have "unat (n - (i + 1)) < unat (n - i)" if "i < n" for n :: "64 word"
    using that by unat_arith
  moreover assume "i < N - 2"
  ultimately have "unat (N - 2 - (i + 1)) < unat (N - 2 - i)"
    by blast
  then show "((oob, xs, i + 1, result @ [px, py]), (oob, xs, i, result))
      \<in> measure (\<lambda>(oob, xs, i, result). unat (N - 2 - i))"
    by simp
qed

declare result_loop.simps [simp del]

text \<open>Lines 203-213: what \<open>Solve\<close> returns, from the vector \<open>solution.x\<close>.\<close>

definition Solve_result :: "oob \<Rightarrow> real list \<Rightarrow> error + real list" where
  "Solve_result oob xs =
     bnd (rd oob xs delta_start) (\<lambda>d.
     bnd (rd oob xs a_start) (\<lambda>a.
     result_loop oob xs 0 [d, a]))"

definition Solve :: "oob \<Rightarrow> solver \<Rightarrow> real list \<Rightarrow> real list \<Rightarrow> error + real list" where
  "Solve oob solve state coeffs =
     bnd (eigen_rd state 0) (\<lambda>x.
     bnd (eigen_rd state 1) (\<lambda>y.
     bnd (eigen_rd state 2) (\<lambda>psi.
     bnd (eigen_rd state 3) (\<lambda>v.
     bnd (eigen_rd state 4) (\<lambda>cte.
     bnd (eigen_rd state 5) (\<lambda>epsi.
     let solution =
           solve options initial_vars vars_lowerbound vars_upperbound
             (constraints_lowerbound x y psi v cte epsi)
             (constraints_upperbound x y psi v cte epsi) (FG_eval oob coeffs);
         ok = (True \<and> sol_status solution = success);
         cost = sol_obj_value solution
     in Solve_result oob (sol_x solution)))))))"

section \<open>The feasible set handed to the solver\<close>

text \<open>
  The contract of \<open>CppAD::ipopt::solve\<close>: the evaluator's \<open>fg[0]\<close> is the objective and
  \<open>fg[1 + i]\<close> is constraint \<open>i\<close>; a point \<open>vars\<close> is feasible when it lies within the
  variable bounds and every constraint value lies within its bounds. The solver calls the
  evaluator with an \<open>fg\<close> of \<open>1 + n_constraints\<close> entries. A point at which the evaluator
  faults is not feasible.
\<close>

definition feasible :: "oob \<Rightarrow> real list \<Rightarrow> real \<Rightarrow> real \<Rightarrow> real \<Rightarrow> real \<Rightarrow> real \<Rightarrow> real \<Rightarrow> real list \<Rightarrow> bool" where
  "feasible oob coeffs x y psi v cte epsi vars \<longleftrightarrow>
     length vars = unat n_vars \<and>
     list_all2 (\<le>) vars_lowerbound vars \<and> list_all2 (\<le>) vars vars_upperbound \<and>
     (case FG_eval oob coeffs (Dvector (1 + n_constraints)) vars of
        (fg, Some e) \<Rightarrow> False
      | (fg, None) \<Rightarrow>
          list_all2 (\<le>) (constraints_lowerbound x y psi v cte epsi) (tl fg) \<and>
          list_all2 (\<le>) (tl fg) (constraints_upperbound x y psi v cte epsi))"

section \<open>Concrete inputs\<close>

text \<open>The two builds of the vector class: every access checked, and none checked with
  the word beyond the end read as zero.\<close>

definition checked :: oob where
  "checked = (\<lambda>i. None)"

definition unchecked_zero :: oob where
  "unchecked_zero = (\<lambda>i. Some 0)"

text \<open>
  A decision vector with \<open>y = 1\<close> and \<open>cte = - 1\<close> at every step and zero elsewhere: the
  vehicle stands still one unit beside the reference line \<open>y = 0\<close>.
\<close>

definition offset_vars :: "real list" where
  "offset_vars =
     replicate 10 0 @ replicate 10 1 @ replicate 10 0 @ replicate 10 0 @ replicate 10 (- 1) @
     replicate 10 0 @ replicate 9 0 @ replicate 9 0"


text \<open>Two solvers that ignore the problem and report the same point, a steering and an
  acceleration of 100 among it, one as infeasible and one as a success.\<close>

definition infeasible_solver :: solver where
  "infeasible_solver opts vars vl vu cl cu fg_eval =
     \<lparr>sol_status = local_infeasibility, sol_x = replicate 78 100, sol_obj_value = 0\<rparr>"

definition success_solver :: solver where
  "success_solver opts vars vl vu cl cu fg_eval =
     \<lparr>sol_status = success, sol_x = replicate 78 100, sol_obj_value = 0\<rparr>"

section \<open>The residuals as specified\<close>

text \<open>
  What the specification (sections 4.1 and 4.2) asks of a residual vector \<open>g\<close> at step \<open>t\<close>,
  in its own words: each of the six residuals is the decided state at \<open>t\<close> minus the state
  that the kinematic model predicts from the decided state and actuation at \<open>t - 1\<close>, where
  \<open>f\<close> is the cubic reference polynomial and \<open>f'\<close> its derivative.
\<close>

definition residuals_as_specified :: "real list \<Rightarrow> real list \<Rightarrow> 64 word \<Rightarrow> real list \<Rightarrow> bool" where
  "residuals_as_specified coeffs vars t g \<longleftrightarrow>
     (let x = vars ! unat (x_start + (t - 1)); y = vars ! unat (y_start + (t - 1));
          psi = vars ! unat (psi_start + (t - 1)); v = vars ! unat (v_start + (t - 1));
          epsi = vars ! unat (epsi_start + (t - 1));
          delta = vars ! unat (delta_start + (t - 1)); a = vars ! unat (a_start + (t - 1));
          f = coeffs ! 0 + coeffs ! 1 * x + coeffs ! 2 * x ^ 2 + coeffs ! 3 * x ^ 3;
          f' = coeffs ! 1 + 2 * coeffs ! 2 * x + 3 * coeffs ! 3 * x ^ 2
      in g ! unat (1 + x_start + t) = vars ! unat (x_start + t) - (x + v * cos psi * dt) \<and>
         g ! unat (1 + y_start + t) = vars ! unat (y_start + t) - (y + v * sin psi * dt) \<and>
         g ! unat (1 + psi_start + t) = vars ! unat (psi_start + t) - (psi - v * delta / Lf * dt) \<and>
         g ! unat (1 + v_start + t) = vars ! unat (v_start + t) - (v + a * dt) \<and>
         g ! unat (1 + cte_start + t) =
           vars ! unat (cte_start + t) - ((f - y) + v * sin epsi * dt) \<and>
         g ! unat (1 + epsi_start + t) =
           vars ! unat (epsi_start + t) - ((psi - arctan f') - v * delta / Lf * dt))"

section \<open>Index arithmetic and the accesses\<close>

lemmas start_defs =
  x_start_def y_start_def psi_start_def v_start_def cte_start_def epsi_start_def
  delta_start_def a_start_def N_def

lemma unat_offset:
  fixes k t :: "64 word"
  assumes "unat k \<le> 100" and "unat t \<le> 100"
  shows "unat (k + t) = unat k + unat t"
proof -
  have "unat k + unat t < 2 ^ LENGTH(64)" using assms by simp
  then show ?thesis by (simp only: unat_add_lem)
qed

lemma unat_t: "t < N \<Longrightarrow> unat t < 10"
  by (simp add: N_def word_less_nat_alt)

lemma slot_unat:
  assumes "t < N"
  shows "unat (1 + x_start + t) = 1 + unat t"
    and "unat (1 + y_start + t) = 11 + unat t"
    and "unat (1 + psi_start + t) = 21 + unat t"
    and "unat (1 + v_start + t) = 31 + unat t"
    and "unat (1 + cte_start + t) = 41 + unat t"
    and "unat (1 + epsi_start + t) = 51 + unat t"
  using unat_t [OF assms] by (simp_all add: start_defs unat_offset)

lemma next_t: "t < N \<Longrightarrow> unat (t + 1) = unat t + 1"
  using unat_offset [of t 1] unat_t [of t] by simp

lemma bnd_Inr: "bnd m f = Inr b \<longleftrightarrow> (\<exists>a. m = Inr a \<and> f a = Inr b)"
  by (cases m) (simp_all add: bnd_def)

lemma bnd_simps [simp]: "bnd (Inr a) f = f a" "bnd (Inl e) f = Inl e"
  by (simp_all add: bnd_def)

lemma wr_Inr: "wr vs i r = Inr vs' \<longleftrightarrow> unat i < length vs \<and> vs' = vs[unat i := r]"
  by (auto simp: wr_def)

lemma rd_in_range: "unat i < length vs \<Longrightarrow> rd oob vs i = Inr (vs ! unat i)"
  by (simp add: rd_def)

lemma eigen_rd_Inr: "eigen_rd vs i = Inr r \<longleftrightarrow> i < length vs \<and> r = vs ! i"
  by (auto simp: eigen_rd_def)

lemma fg_body_writes:
  assumes "fg_body oob coeffs vars t fg = Inr fg'"
  obtains r1 r2 r3 r4 r5 r6 where
    "fg' = fg[unat (1 + x_start + t) := r1, unat (1 + y_start + t) := r2,
              unat (1 + psi_start + t) := r3, unat (1 + v_start + t) := r4,
              unat (1 + cte_start + t) := r5, unat (1 + epsi_start + t) := r6]"
  using assms unfolding fg_body_def bnd_Inr wr_Inr Let_def by (elim exE conjE) simp

lemma fg_body_frame:
  assumes "fg_body oob coeffs vars t fg = Inr fg'" and "t < N"
  shows "length fg' = length fg"
    and "i \<notin> slots (unat t) \<Longrightarrow> fg' ! i = fg ! i"
proof -
  from assms(1) obtain r1 r2 r3 r4 r5 r6 where
    eq: "fg' = fg[unat (1 + x_start + t) := r1, unat (1 + y_start + t) := r2,
              unat (1 + psi_start + t) := r3, unat (1 + v_start + t) := r4,
              unat (1 + cte_start + t) := r5, unat (1 + epsi_start + t) := r6]"
    by (rule fg_body_writes)
  show "length fg' = length fg" by (simp add: eq)
  assume "i \<notin> slots (unat t)"
  then show "fg' ! i = fg ! i"
    by (simp add: eq slot_unat [OF assms(2)] slots_def)
qed

lemma fg_loop_frame:
  "fg_loop oob coeffs vars t fg = (fg', e) \<Longrightarrow>
   length fg' = length fg \<and>
   (\<forall>i. (\<forall>s. unat t \<le> s \<and> s < 10 \<longrightarrow> i \<notin> slots s) \<longrightarrow> fg' ! i = fg ! i)"
proof (induction oob coeffs vars t fg rule: fg_loop.induct)
  case (1 oob coeffs vars t fg)
  show ?case
  proof (cases "t < N")
    case False
    with "1.prems" show ?thesis by (simp add: fg_loop.simps)
  next
    case True
    show ?thesis
    proof (cases "fg_body oob coeffs vars t fg")
      case (Inl err)
      with True "1.prems" show ?thesis by (simp add: fg_loop.simps)
    next
      case (Inr fg1)
      with True "1.prems" have rest: "fg_loop oob coeffs vars (t + 1) fg1 = (fg', e)"
        by (simp add: fg_loop.simps)
      from "1.IH" [OF True Inr rest]
      have len: "length fg' = length fg1"
        and keep: "\<forall>i. (\<forall>s. unat (t + 1) \<le> s \<and> s < 10 \<longrightarrow> i \<notin> slots s) \<longrightarrow> fg' ! i = fg1 ! i"
        by blast+
      have "fg' ! i = fg ! i" if i: "\<forall>s. unat t \<le> s \<and> s < 10 \<longrightarrow> i \<notin> slots s" for i
      proof -
        from i have "\<forall>s. unat (t + 1) \<le> s \<and> s < 10 \<longrightarrow> i \<notin> slots s"
          unfolding next_t [OF True] by simp
        with keep have "fg' ! i = fg1 ! i" by blast
        moreover from i unat_t [OF True] have "i \<notin> slots (unat t)" by simp
        then have "fg1 ! i = fg ! i" by (rule fg_body_frame(2) [OF Inr True])
        ultimately show ?thesis by simp
      qed
      with len fg_body_frame(1) [OF Inr True] show ?thesis by simp
    qed
  qed
qed

lemma fg_loop_cost: "fst (fg_loop oob coeffs vars t fg) ! 0 = fg ! 0"
  using fg_loop_frame [of oob coeffs vars t fg "fst (fg_loop oob coeffs vars t fg)" "snd (fg_loop oob coeffs vars t fg)"]
  by (simp add: slots_def)


lemma unat_max_index: "unat (x_start + 0 - 1) = 18446744073709551615"
  by (simp add: x_start_def unsigned_minus_1_eq_mask mask_eq_exp_minus_1)

lemma n_vars_eq: "unat n_vars = 78"
  by (simp add: n_vars_def N_def)

lemma t_cases: "1 \<le> t \<Longrightarrow> t < N \<Longrightarrow> t \<in> {1, 2, 3, 4, 5, 6, 7, 8, 9 :: 64 word}"
  unfolding N_def by unat_arith

lemma reads_in_range:
  assumes "length vars = unat n_vars" and "1 \<le> t" and "t < N"
  shows "rd oob vars (x_start + t) = Inr (vars ! unat (x_start + t))"
    and "rd oob vars (y_start + t) = Inr (vars ! unat (y_start + t))"
    and "rd oob vars (psi_start + t) = Inr (vars ! unat (psi_start + t))"
    and "rd oob vars (v_start + t) = Inr (vars ! unat (v_start + t))"
    and "rd oob vars (cte_start + t) = Inr (vars ! unat (cte_start + t))"
    and "rd oob vars (epsi_start + t) = Inr (vars ! unat (epsi_start + t))"
    and "rd oob vars (x_start + t - 1) = Inr (vars ! unat (x_start + t - 1))"
    and "rd oob vars (y_start + t - 1) = Inr (vars ! unat (y_start + t - 1))"
    and "rd oob vars (psi_start + t - 1) = Inr (vars ! unat (psi_start + t - 1))"
    and "rd oob vars (v_start + t - 1) = Inr (vars ! unat (v_start + t - 1))"
    and "rd oob vars (cte_start + t - 1) = Inr (vars ! unat (cte_start + t - 1))"
    and "rd oob vars (epsi_start + t - 1) = Inr (vars ! unat (epsi_start + t - 1))"
    and "rd oob vars (delta_start + t - 1) = Inr (vars ! unat (delta_start + t - 1))"
    and "rd oob vars (a_start + t - 1) = Inr (vars ! unat (a_start + t - 1))"
  using t_cases [OF assms(2,3)] assms(1)
  by (auto simp: rd_def n_vars_eq start_defs)

lemma t_cases0: "t < N \<Longrightarrow> t \<in> {0, 1, 2, 3, 4, 5, 6, 7, 8, 9 :: 64 word}"
  unfolding N_def by unat_arith

lemma fg_body_ok:
  assumes "t < N" and "length vars = unat n_vars" and "length coeffs = 4"
    and "length fg = 61" and "oob (x_start + 0 - 1) = Some r"
  shows "\<exists>fg'. fg_body oob coeffs vars t fg = Inr fg'"
proof -
  have len: "length vars = 78" and o: "oob (- 1) = Some r"
    using assms(2,5) by (simp_all add: n_vars_eq x_start_def)
  from t_cases0 [OF assms(1)] show ?thesis
    using len o assms(3,4)
    by (elim insertE emptyE;
        simp add: fg_body_def rd_def wr_def eigen_rd_def start_defs Let_def
          unsigned_minus_1_eq_mask mask_eq_exp_minus_1)
qed

lemma fg_loop_ok:
  "length vars = unat n_vars \<Longrightarrow> length coeffs = 4 \<Longrightarrow> oob (x_start + 0 - 1) = Some r \<Longrightarrow>
   length fg = 61 \<Longrightarrow> snd (fg_loop oob coeffs vars t fg) = None"
proof (induction oob coeffs vars t fg rule: fg_loop.induct)
  case (1 oob coeffs vars t fg)
  show ?case
  proof (cases "t < N")
    case False
    then show ?thesis by (simp add: fg_loop.simps)
  next
    case True
    from fg_body_ok [of t vars coeffs fg oob r] True "1.prems" obtain fg1
      where body: "fg_body oob coeffs vars t fg = Inr fg1" by blast
    have "length fg1 = 61"
      using fg_body_frame(1) [OF body True] "1.prems"(4) by simp
    with "1.IH" [OF True body "1.prems"(1,2,3)]
    have "snd (fg_loop oob coeffs vars (t + 1) fg1) = None" by blast
    with True body show ?thesis by (simp add: fg_loop.simps [of _ _ _ t])
  qed
qed

lemma fg_body_values:
  assumes body: "fg_body oob coeffs vars t fg = Inr fg'"
    and "length vars = unat n_vars" and "1 \<le> t" and "t < N"
  shows "let x0 = vars ! unat (x_start + t - 1); y0 = vars ! unat (y_start + t - 1);
             psi0 = vars ! unat (psi_start + t - 1); v0 = vars ! unat (v_start + t - 1);
             epsi0 = vars ! unat (epsi_start + t - 1);
             delta0 = vars ! unat (delta_start + t - 1); a0 = vars ! unat (a_start + t - 1);
             f0 = coeffs ! 0 + coeffs ! 1 * x0 + coeffs ! 2 * x0 ^ 2 + coeffs ! 3 * x0 ^ 3;
             psi_des0 = arctan (coeffs ! 1 + 2 * coeffs ! 2 * x0 + 3 * coeffs ! 3 * x0 ^ 2)
         in fg' ! (1 + unat t) = vars ! unat (x_start + t) - (x0 + v0 * cos psi0 * dt) \<and>
            fg' ! (11 + unat t) = vars ! unat (y_start + t) - (y0 + v0 * sin psi0 * dt) \<and>
            fg' ! (21 + unat t) = vars ! unat (psi_start + t) - (psi0 - v0 * delta0 / Lf * dt) \<and>
            fg' ! (31 + unat t) = vars ! unat (v_start + t) - (v0 + a0 * dt) \<and>
            fg' ! (41 + unat t) =
              vars ! unat (cte_start + t) - ((f0 - y0) + v0 * sin epsi0 * dt) \<and>
            fg' ! (51 + unat t) =
              vars ! unat (epsi_start + t) - ((psi0 - psi_des0) - v0 * delta0 / Lf * dt)"
  using body unat_t [OF assms(4)]
  unfolding fg_body_def reads_in_range [OF assms(2-4)] bnd_simps Let_def
    bnd_Inr wr_Inr eigen_rd_Inr slot_unat [OF assms(4)]
  by (elim exE conjE) simp

lemma slots_disjoint: "u < s \<Longrightarrow> s < 10 \<Longrightarrow> i \<in> slots u \<Longrightarrow> i \<notin> slots s"
  by (auto simp: slots_def)

lemma fg_loop_values:
  "fg_loop oob coeffs vars t0 fg = (g, None) \<Longrightarrow> t0 \<le> t \<Longrightarrow> t < N \<Longrightarrow>
   \<exists>fgA fgB. fg_body oob coeffs vars t fgA = Inr fgB \<and> (\<forall>i\<in>slots (unat t). g ! i = fgB ! i)"
proof (induction oob coeffs vars t0 fg rule: fg_loop.induct)
  case (1 oob coeffs vars t0 fg)
  from "1.prems"(2,3) have lt: "t0 < N" by simp
  from "1.prems"(1) lt obtain fg1
    where body: "fg_body oob coeffs vars t0 fg = Inr fg1"
      and rest: "fg_loop oob coeffs vars (t0 + 1) fg1 = (g, None)"
    by (cases "fg_body oob coeffs vars t0 fg") (simp_all add: fg_loop.simps [of _ _ _ t0])
  show ?case
  proof (cases "t0 = t")
    case True
    have "g ! i = fg1 ! i" if "i \<in> slots (unat t)" for i
    proof -
      have "unat (t0 + 1) = unat t + 1"
        using next_t [OF lt] True by simp
      then have "\<forall>s. unat (t0 + 1) \<le> s \<and> s < 10 \<longrightarrow> i \<notin> slots s"
        using that slots_disjoint [of "unat t" _ i] by simp
      with fg_loop_frame [OF rest] show ?thesis by blast
    qed
    with body True show ?thesis by blast
  next
    case False
    with "1.prems"(2) have "t0 < t" by simp
    then have "t0 + 1 \<le> t" by (rule inc_le)
    from "1.IH" [OF lt body rest this "1.prems"(3)] show ?thesis .
  qed
qed


lemma fg_body_ok_later:
  assumes "1 \<le> t" and "t < N" and "length vars = unat n_vars" and "length coeffs = 4"
    and "length fg = 61"
  shows "\<exists>fg'. fg_body oob coeffs vars t fg = Inr fg'"
proof -
  have len: "length vars = 78"
    using assms(3) by (simp add: n_vars_eq)
  from t_cases [OF assms(1,2)] show ?thesis
    using len assms(4,5)
    by (elim insertE emptyE;
        simp add: fg_body_def rd_def wr_def eigen_rd_def start_defs Let_def)
qed

lemma residuals_as_specified_iff:
  assumes "t < N"
  shows "residuals_as_specified coeffs vars t g \<longleftrightarrow>
    (let x0 = vars ! unat (x_start + t - 1); y0 = vars ! unat (y_start + t - 1);
         psi0 = vars ! unat (psi_start + t - 1); v0 = vars ! unat (v_start + t - 1);
         epsi0 = vars ! unat (epsi_start + t - 1);
         delta0 = vars ! unat (delta_start + t - 1); a0 = vars ! unat (a_start + t - 1);
         f0 = coeffs ! 0 + coeffs ! 1 * x0 + coeffs ! 2 * x0 ^ 2 + coeffs ! 3 * x0 ^ 3;
         psi_des0 = arctan (coeffs ! 1 + 2 * coeffs ! 2 * x0 + 3 * coeffs ! 3 * x0 ^ 2)
     in g ! (1 + unat t) = vars ! unat (x_start + t) - (x0 + v0 * cos psi0 * dt) \<and>
        g ! (11 + unat t) = vars ! unat (y_start + t) - (y0 + v0 * sin psi0 * dt) \<and>
        g ! (21 + unat t) = vars ! unat (psi_start + t) - (psi0 - v0 * delta0 / Lf * dt) \<and>
        g ! (31 + unat t) = vars ! unat (v_start + t) - (v0 + a0 * dt) \<and>
        g ! (41 + unat t) =
          vars ! unat (cte_start + t) - ((f0 - y0) + v0 * sin epsi0 * dt) \<and>
        g ! (51 + unat t) =
          vars ! unat (epsi_start + t) - ((psi0 - psi_des0) - v0 * delta0 / Lf * dt))"
  unfolding residuals_as_specified_def slot_unat [OF assms] add_diff_eq Let_def by (rule refl)

section \<open>The bounds and the returned vector\<close>

lemma unat_inc:
  fixes i n :: "64 word"
  assumes "i < n"
  shows "unat (i + 1) = unat i + 1"
proof -
  from assms have "unat i < unat n" by (simp add: word_less_nat_alt)
  moreover have "unat n < 2 ^ LENGTH(64)" by (rule unsigned_less)
  ultimately have "unat i + unat (1 :: 64 word) < 2 ^ LENGTH(64)" by simp
  then have "unat (i + 1) = unat i + unat (1 :: 64 word)" by (simp only: unat_add_lem)
  then show ?thesis by simp
qed

lemma set_loop_length: "length (set_loop i n c vs) = length vs"
proof (induction i n c vs rule: set_loop.induct)
  case (1 i n c vs)
  then show ?case by (cases "i < n") (simp_all add: set_loop.simps [of i])
qed

lemma set_loop_nth:
  "j < length vs \<Longrightarrow>
   set_loop i n c vs ! j = (if unat i \<le> j \<and> j < unat n then c else vs ! j)"
proof (induction i n c vs rule: set_loop.induct)
  case (1 i n c vs)
  show ?case
  proof (cases "i < n")
    case False
    then have "\<not> (unat i \<le> j \<and> j < unat n)" by (auto simp: word_less_nat_alt)
    moreover from False have "set_loop i n c vs = vs" by (simp add: set_loop.simps [of i])
    ultimately show ?thesis by auto
  next
    case True
    have "set_loop i n c vs ! j = set_loop (i + 1) n c (vs[unat i := c]) ! j"
      using True by (simp add: set_loop.simps [of i])
    also have "\<dots> = (if unat (i + 1) \<le> j \<and> j < unat n then c else vs[unat i := c] ! j)"
      using "1.IH" [OF True] "1.prems" by simp
    also have "\<dots> = (if unat i \<le> j \<and> j < unat n then c else vs ! j)"
      using True "1.prems"
      by (cases "j = unat i") (auto simp: unat_inc [OF True] word_less_nat_alt)
    finally show ?thesis .
  qed
qed

lemma unat_consts:
  "unat x_start = 0" "unat y_start = 10" "unat psi_start = 20" "unat v_start = 30"
  "unat cte_start = 40" "unat epsi_start = 50" "unat delta_start = 60" "unat a_start = 69"
  "unat n_vars = 78" "unat n_constraints = 60" "unat N = 10"
  by (simp_all add: start_defs n_vars_def n_constraints_def)

lemma initial_vars_eq: "initial_vars = replicate 78 0"
  by (rule nth_equalityI)
    (simp_all add: initial_vars_def Dvector_def set_loop_length set_loop_nth unat_consts)

lemma vars_bounds_length: "length vars_lowerbound = 78" "length vars_upperbound = 78"
  by (simp_all add: vars_lowerbound_def vars_upperbound_def Dvector_def set_loop_length unat_consts)

lemma vars_lowerbound_nth:
  "i < 78 \<Longrightarrow> vars_lowerbound ! i =
     (if i < 60 then - 10000000000000000000 else if i < 69 then - (436332 / 1000000) * Lf else - 1)"
  by (simp add: vars_lowerbound_def Dvector_def set_loop_length set_loop_nth unat_consts)

lemma vars_upperbound_nth:
  "i < 78 \<Longrightarrow> vars_upperbound ! i =
     (if i < 60 then 10000000000000000000 else if i < 69 then 43632 / 100000 * Lf else 1)"
  by (simp add: vars_upperbound_def Dvector_def set_loop_length set_loop_nth unat_consts)

lemma constraints_length:
  "length (constraints_lowerbound x y psi v cte epsi) = 60"
  "length (constraints_upperbound x y psi v cte epsi) = 60"
  by (simp_all add: constraints_lowerbound_def constraints_upperbound_def Dvector_def
      set_loop_length unat_consts)

lemma constraints_lowerbound_nth:
  "j < 60 \<Longrightarrow> constraints_lowerbound x y psi v cte epsi ! j =
     (if j = 0 then x else if j = 10 then y else if j = 20 then psi else if j = 30 then v
      else if j = 40 then cte else if j = 50 then epsi else 0)"
  by (simp add: constraints_lowerbound_def Dvector_def set_loop_length set_loop_nth unat_consts)

lemma constraints_upperbound_eq:
  "constraints_upperbound x y psi v cte epsi = constraints_lowerbound x y psi v cte epsi"
  by (simp add: constraints_lowerbound_def constraints_upperbound_def)

lemma Solve_result_eq:
  assumes "length xs = 78"
  shows "Solve_result oob xs =
     Inr [xs ! 60, xs ! 69, xs ! 1, xs ! 11, xs ! 2, xs ! 12, xs ! 3, xs ! 13, xs ! 4, xs ! 14,
          xs ! 5, xs ! 15, xs ! 6, xs ! 16, xs ! 7, xs ! 17, xs ! 8, xs ! 18]"
  using assms by (simp add: Solve_result_def rd_def result_loop.simps start_defs)

lemma Solve_unfold:
  assumes "length state = 6"
  shows "Solve oob solve state coeffs =
     Solve_result oob (sol_x (solve options initial_vars vars_lowerbound vars_upperbound
       (constraints_lowerbound (state ! 0) (state ! 1) (state ! 2) (state ! 3) (state ! 4) (state ! 5))
       (constraints_upperbound (state ! 0) (state ! 1) (state ! 2) (state ! 3) (state ! 4) (state ! 5))
       (FG_eval oob coeffs)))"
  using assms by (simp add: Solve_def eigen_rd_def Let_def)

lemma upt_10: "[0..<10] = [0, 1, 2, 3, 4, 5, 6, 7, 8, 9 :: nat]"
  by code_simp

lemma ev_snd:
  "snd (FG_eval unchecked_zero [0, 0, 0, 0] (Dvector (1 + n_constraints)) offset_vars) = None"
  by (simp add: FG_eval_def Dvector_def n_constraints_def wr_def rd_def eigen_rd_def
      fg_loop.simps fg_body_def start_defs unchecked_zero_def offset_vars_def nth_append
      unsigned_minus_1_eq_mask mask_eq_exp_minus_1)

lemma ev_res:
  "list_all (\<lambda>t.
      fst (FG_eval unchecked_zero [0, 0, 0, 0] (Dvector (1 + n_constraints)) offset_vars) ! (1 + t)
        = constraints_lowerbound 0 1 (- 1) 0 (- 1) (- 1) ! t \<and>
      fst (FG_eval unchecked_zero [0, 0, 0, 0] (Dvector (1 + n_constraints)) offset_vars) ! (11 + t)
        = constraints_lowerbound 0 1 (- 1) 0 (- 1) (- 1) ! (10 + t) \<and>
      fst (FG_eval unchecked_zero [0, 0, 0, 0] (Dvector (1 + n_constraints)) offset_vars) ! (21 + t)
        = constraints_lowerbound 0 1 (- 1) 0 (- 1) (- 1) ! (20 + t) \<and>
      fst (FG_eval unchecked_zero [0, 0, 0, 0] (Dvector (1 + n_constraints)) offset_vars) ! (31 + t)
        = constraints_lowerbound 0 1 (- 1) 0 (- 1) (- 1) ! (30 + t) \<and>
      fst (FG_eval unchecked_zero [0, 0, 0, 0] (Dvector (1 + n_constraints)) offset_vars) ! (41 + t)
        = constraints_lowerbound 0 1 (- 1) 0 (- 1) (- 1) ! (40 + t) \<and>
      fst (FG_eval unchecked_zero [0, 0, 0, 0] (Dvector (1 + n_constraints)) offset_vars) ! (51 + t)
        = constraints_lowerbound 0 1 (- 1) 0 (- 1) (- 1) ! (50 + t)) [0..<10]"
  unfolding upt_10
  by (simp add: FG_eval_def Dvector_def n_constraints_def wr_def rd_def eigen_rd_def
      fg_loop.simps fg_body_def start_defs unchecked_zero_def offset_vars_def nth_append
      unsigned_minus_1_eq_mask mask_eq_exp_minus_1 constraints_lowerbound_nth
      numeral_2_eq_2 [symmetric])

lemma FG_eval_length: "length (fst (FG_eval oob coeffs fg vars)) = length fg"
proof (cases "wr fg 0 0")
  case (Inl e)
  then show ?thesis by (simp add: FG_eval_def)
next
  case (Inr fg0)
  then have "length fg0 = length fg" by (auto simp: wr_Inr)
  moreover have "length (fst (fg_loop oob coeffs vars 0 fg0)) = length fg0"
    using fg_loop_frame [of oob coeffs vars 0 fg0 "fst (fg_loop oob coeffs vars 0 fg0)"
        "snd (fg_loop oob coeffs vars 0 fg0)"]
    by simp
  ultimately show ?thesis using Inr by (simp add: FG_eval_def)
qed

lemma offset_vars_range: "length offset_vars = 78" "\<forall>r\<in>set offset_vars. - 1 \<le> r \<and> r \<le> 1"
  by (auto simp: offset_vars_def)

lemma offset_vars_bounds:
  "list_all2 (\<le>) vars_lowerbound offset_vars" "list_all2 (\<le>) offset_vars vars_upperbound"
proof -
  have "vars_lowerbound ! i \<le> offset_vars ! i \<and> offset_vars ! i \<le> vars_upperbound ! i"
    if "i < 78" for i
  proof -
    from that have "offset_vars ! i \<in> set offset_vars"
      by (simp add: offset_vars_range(1))
    with offset_vars_range(2) have "- 1 \<le> offset_vars ! i" "offset_vars ! i \<le> 1"
      by blast+
    moreover have "vars_lowerbound ! i \<le> - 1" "1 \<le> vars_upperbound ! i"
      using that by (simp_all add: vars_lowerbound_nth vars_upperbound_nth Lf_def)
    ultimately show ?thesis by linarith
  qed
  then show "list_all2 (\<le>) vars_lowerbound offset_vars" "list_all2 (\<le>) offset_vars vars_upperbound"
    by (simp_all add: list_all2_conv_all_nth vars_bounds_length offset_vars_range(1))
qed


lemma FG_eval_trapped:
  assumes "length vars = unat n_vars" and "fg \<noteq> []" and "oob (x_start + 0 - 1) = None"
  shows "FG_eval oob coeffs fg vars = (fg[0 := 0], Some (VectorIndex (x_start + 0 - 1)))"
proof -
  from assms(1) have len: "length vars = 78" by (simp add: n_vars_eq)
  have "fg_body oob coeffs vars 0 (fg[0 := 0]) = Inl (VectorIndex (x_start + 0 - 1))"
    using assms(3) len
    by (simp add: fg_body_def rd_def start_defs unsigned_minus_1_eq_mask mask_eq_exp_minus_1)
  then show ?thesis
    using assms(2) by (simp add: FG_eval_def wr_def fg_loop.simps [of _ _ _ 0] N_def)
qed


section \<open>The evaluator\<close>

text \<open>
  Claim C1 says that the cost \<open>fg[0]\<close> is the weighted sum of quadratic penalties over the
  horizon. The evaluator assigns \<open>fg[0] = 0\<close> and never writes that entry again: for every
  decision vector, whatever the reference polynomial and whether or not the loop runs to
  its end, the cost it leaves in \<open>fg[0]\<close> is zero. The seven weights are not used.
\<close>

theorem cost_is_zero: "fg \<noteq> [] \<Longrightarrow> fst (FG_eval oob coeffs fg vars) ! 0 = 0"
  by (simp add: FG_eval_def wr_def fg_loop_cost)

theorem cost_is_zero_witness:
  "replicate 61 0 \<noteq> ([] :: real list) \<and>
   fst (FG_eval unchecked_zero [0, 0, 0, 0] (replicate 61 0) (replicate 78 1)) ! 0 = 0"
  using cost_is_zero [of "replicate 61 0" unchecked_zero "[0, 0, 0, 0]" "replicate 78 1"]
  by simp

text \<open>
  Claim C2 says that a decision vector which satisfies the constraint bounds has, at step 0
  of each state block, the component of the input state. The evaluator has no residual
  \<open>fg[1 + block_start] = vars[block_start]\<close>: the slot holds the model residual of the
  iteration \<open>t = 0\<close>. With unchecked reads, for the state \<open>(0, 1, - 1, 0, - 1, - 1)\<close> and the
  reference line \<open>y = 0\<close>, the vector \<open>offset_vars\<close> is feasible although its heading and its
  heading error at step 0 are 0 where the state has \<open>- 1\<close>.
\<close>

theorem first_step_not_pinned:
  "feasible unchecked_zero [0, 0, 0, 0] 0 1 (- 1) 0 (- 1) (- 1) offset_vars \<and>
   offset_vars ! unat psi_start = 0 \<and> offset_vars ! unat epsi_start = 0"
proof -
  let ?ev = "FG_eval unchecked_zero [0, 0, 0, 0] (Dvector (1 + n_constraints)) offset_vars"
  let ?cl = "constraints_lowerbound 0 1 (- 1) 0 (- 1) (- 1)"
  have len: "length (tl (fst ?ev)) = 60"
    by (simp add: FG_eval_length Dvector_def n_constraints_def N_def)
  have step: "fst ?ev ! (1 + t) = ?cl ! t \<and> fst ?ev ! (11 + t) = ?cl ! (10 + t) \<and>
      fst ?ev ! (21 + t) = ?cl ! (20 + t) \<and> fst ?ev ! (31 + t) = ?cl ! (30 + t) \<and>
      fst ?ev ! (41 + t) = ?cl ! (40 + t) \<and> fst ?ev ! (51 + t) = ?cl ! (50 + t)"
    if "t < 10" for t
  proof -
    from that have "t \<in> set [0..<10]" by simp
    with ev_res show ?thesis unfolding list_all_iff by blast
  qed
  have "tl (fst ?ev) ! i = ?cl ! i" if "i < 60" for i
  proof -
    from that consider "i < 10" | "10 \<le> i \<and> i < 20" | "20 \<le> i \<and> i < 30"
      | "30 \<le> i \<and> i < 40" | "40 \<le> i \<and> i < 50" | "50 \<le> i \<and> i < 60"
      by linarith
    then have "fst ?ev ! (i + 1) = ?cl ! i"
    proof cases
      case 1
      with step [of i] show ?thesis by simp
    next
      case 2
      then have t: "i - 10 < 10" and e: "11 + (i - 10) = i + 1" "10 + (i - 10) = i"
        by auto
      from step [OF t] show ?thesis unfolding e by blast
    next
      case 3
      then have t: "i - 20 < 10" and e: "21 + (i - 20) = i + 1" "20 + (i - 20) = i"
        by auto
      from step [OF t] show ?thesis unfolding e by blast
    next
      case 4
      then have t: "i - 30 < 10" and e: "31 + (i - 30) = i + 1" "30 + (i - 30) = i"
        by auto
      from step [OF t] show ?thesis unfolding e by blast
    next
      case 5
      then have t: "i - 40 < 10" and e: "41 + (i - 40) = i + 1" "40 + (i - 40) = i"
        by auto
      from step [OF t] show ?thesis unfolding e by blast
    next
      case 6
      then have t: "i - 50 < 10" and e: "51 + (i - 50) = i + 1" "50 + (i - 50) = i"
        by auto
      from step [OF t] show ?thesis unfolding e by blast
    qed
    with that len show ?thesis by (simp add: nth_tl)
  qed
  with len have "tl (fst ?ev) = ?cl"
    by (auto intro: nth_equalityI simp: constraints_length)
  then have "list_all2 (\<le>) ?cl (tl (fst ?ev)) \<and>
      list_all2 (\<le>) (tl (fst ?ev)) (constraints_upperbound 0 1 (- 1) 0 (- 1) (- 1))"
    by (simp add: constraints_upperbound_eq list_all2_conv_all_nth)
  moreover obtain g where "?ev = (g, None)"
    using ev_snd by (cases ?ev) auto
  ultimately have "feasible unchecked_zero [0, 0, 0, 0] 0 1 (- 1) 0 (- 1) (- 1) offset_vars"
    using offset_vars_bounds by (simp add: feasible_def offset_vars_range(1) unat_consts)
  moreover have "offset_vars ! unat psi_start = 0" "offset_vars ! unat epsi_start = 0"
    by (simp_all add: unat_consts offset_vars_def nth_append)
  ultimately show ?thesis by blast
qed

text \<open>
  Claim C3 says that at \<open>t = 0\<close> the expressions for the previous step use index 0 and that
  every read of \<open>vars\<close> is within bounds. The index \<open>x_start + t - 1\<close> is computed in
  \<open>size_t\<close>: at \<open>t = 0\<close> it is \<open>2 ^ 64 - 1\<close>, beyond every decision vector of the specified
  length, and a checked access stops the evaluator there with that index. In the other
  seven blocks the index at \<open>t = 0\<close> is the last entry of the block before.
\<close>

theorem first_step_out_of_range:
  assumes "length vars = unat n_vars" and "fg \<noteq> []" and "oob (x_start + 0 - 1) = None"
  shows "FG_eval oob coeffs fg vars = (fg[0 := 0], Some (VectorIndex (x_start + 0 - 1))) \<and>
         length vars \<le> unat (x_start + 0 - 1) \<and>
         y_start + 0 - 1 = x_start + (N - 1) \<and>
         psi_start + 0 - 1 = y_start + (N - 1) \<and>
         v_start + 0 - 1 = psi_start + (N - 1) \<and>
         cte_start + 0 - 1 = v_start + (N - 1) \<and>
         epsi_start + 0 - 1 = cte_start + (N - 1) \<and>
         delta_start + 0 - 1 = epsi_start + (N - 1) \<and>
         a_start + 0 - 1 = delta_start + (N - 2)"
proof -
  from assms(1) have len: "length vars = 78" by (simp add: n_vars_eq)
  have "fg_body oob coeffs vars 0 (fg[0 := 0]) = Inl (VectorIndex (x_start + 0 - 1))"
    using assms(3) len
    by (simp add: fg_body_def rd_def start_defs unsigned_minus_1_eq_mask mask_eq_exp_minus_1)
  then have "FG_eval oob coeffs fg vars = (fg[0 := 0], Some (VectorIndex (x_start + 0 - 1)))"
    using assms(2) by (simp add: FG_eval_def wr_def fg_loop.simps [of _ _ _ 0] N_def)
  moreover have "length vars \<le> unat (x_start + 0 - 1)"
    using unat_max_index by (simp add: len)
  ultimately show ?thesis by (simp add: start_defs)
qed

theorem first_step_out_of_range_witness:
  "length (replicate 78 1 :: real list) = unat n_vars \<and> replicate 61 0 \<noteq> ([] :: real list) \<and>
   checked (x_start + 0 - 1) = None \<and>
   FG_eval checked [0, 0, 0, 0] (replicate 61 0) (replicate 78 1) =
     (replicate 61 0, Some (VectorIndex (- 1))) \<and>
   78 \<le> unat (- 1 :: 64 word)"
  using first_step_out_of_range [of "replicate 78 1" "replicate 61 0" checked "[0, 0, 0, 0]"]
  by (simp add: n_vars_eq checked_def x_start_def list_update_same_conv)

text \<open>
  Claim C6 says that for every step \<open>t\<close> from 1 to \<open>N - 1\<close> the residual that the evaluator
  stores at \<open>1 + block_start + t\<close> is the decided state at \<open>t\<close> minus the bicycle-model
  prediction from the decided state and actuation at \<open>t - 1\<close>. With checked accesses the
  evaluator stops in the iteration \<open>t = 0\<close>, at the read of index \<open>x_start + 0 - 1\<close>: it
  stores no residual at all, and the six slots of every step \<open>t\<close> hold what \<open>fg\<close> held on
  entry. For 78 ones and an \<open>fg\<close> of zeros the speed slot of step 1 is 0 where the specified
  residual is \<open>- dt\<close>.
\<close>

theorem residuals_not_stored:
  assumes "length vars = unat n_vars" and "length fg = unat (1 + n_constraints)"
    and "oob (x_start + 0 - 1) = None" and "1 \<le> t" and "t < N"
  shows "snd (FG_eval oob coeffs fg vars) = Some (VectorIndex (x_start + 0 - 1)) \<and>
         fst (FG_eval oob coeffs fg vars) ! unat (1 + x_start + t) = fg ! unat (1 + x_start + t) \<and>
         fst (FG_eval oob coeffs fg vars) ! unat (1 + y_start + t) = fg ! unat (1 + y_start + t) \<and>
         fst (FG_eval oob coeffs fg vars) ! unat (1 + psi_start + t) = fg ! unat (1 + psi_start + t) \<and>
         fst (FG_eval oob coeffs fg vars) ! unat (1 + v_start + t) = fg ! unat (1 + v_start + t) \<and>
         fst (FG_eval oob coeffs fg vars) ! unat (1 + cte_start + t) = fg ! unat (1 + cte_start + t) \<and>
         fst (FG_eval oob coeffs fg vars) ! unat (1 + epsi_start + t) = fg ! unat (1 + epsi_start + t)"
proof -
  from assms(2) have "fg \<noteq> []"
    by (auto simp: n_constraints_def N_def)
  with FG_eval_trapped [of vars fg oob coeffs] assms(1,3)
  have "FG_eval oob coeffs fg vars = (fg[0 := 0], Some (VectorIndex (x_start + 0 - 1)))"
    by blast
  then show ?thesis
    by (simp add: slot_unat [OF assms(5)])
qed

theorem residuals_not_stored_witness:
  "length (replicate 78 1 :: real list) = unat n_vars \<and>
   length (replicate 61 0 :: real list) = unat (1 + n_constraints) \<and>
   checked (x_start + 0 - 1) = None \<and> (1 :: 64 word) \<le> 1 \<and> 1 < N \<and>
   snd (FG_eval checked [0, 0, 0, 0] (replicate 61 0) (replicate 78 1)) = Some (VectorIndex (- 1)) \<and>
   fst (FG_eval checked [0, 0, 0, 0] (replicate 61 0) (replicate 78 1)) ! unat (1 + v_start + 1) = 0 \<and>
   \<not> residuals_as_specified [0, 0, 0, 0] (replicate 78 1) 1
       (fst (FG_eval checked [0, 0, 0, 0] (replicate 61 0) (replicate 78 1)))"
  using residuals_not_stored [of "replicate 78 1" "replicate 61 0" checked 1 "[0, 0, 0, 0]"]
  by (simp add: n_vars_eq checked_def start_defs n_constraints_def residuals_as_specified_def
      Let_def dt_def)

text \<open>
  The formulas of the iteration are the specified ones: each iteration \<open>t\<close> from 1 to
  \<open>N - 1\<close>, run by itself, stores the residuals as specified, and when the read beyond the
  vector at \<open>t = 0\<close> is not trapped the evaluator runs to its end and leaves them in place.
\<close>

lemma residuals_when_unchecked:
  assumes "length vars = unat n_vars" and "length coeffs = 4"
    and "length fg = unat (1 + n_constraints)" and "1 \<le> t" and "t < N"
  shows "(\<exists>fg'. fg_body oob coeffs vars t fg = Inr fg' \<and> residuals_as_specified coeffs vars t fg') \<and>
    (oob (x_start + 0 - 1) \<noteq> None \<longrightarrow>
       snd (FG_eval oob coeffs fg vars) = None \<and>
       residuals_as_specified coeffs vars t (fst (FG_eval oob coeffs fg vars)))"
proof (intro conjI impI)
  have len: "length fg = 61" "length (fg[0 := 0]) = 61"
    using assms(3) by (simp_all add: n_constraints_def N_def)
  from fg_body_ok_later [OF assms(4,5,1,2) len(1)] obtain fg'
    where body: "fg_body oob coeffs vars t fg = Inr fg'" by blast
  from fg_body_values [OF body assms(1,4,5)]
  have "residuals_as_specified coeffs vars t fg'"
    unfolding residuals_as_specified_iff [OF assms(5)] .
  with body show "\<exists>fg'. fg_body oob coeffs vars t fg = Inr fg' \<and> residuals_as_specified coeffs vars t fg'"
    by blast
  let ?g = "fst (FG_eval oob coeffs fg vars)"
  assume "oob (x_start + 0 - 1) \<noteq> None"
  then obtain r where r: "oob (x_start + 0 - 1) = Some r" by blast
  have eval: "FG_eval oob coeffs fg vars = fg_loop oob coeffs vars 0 (fg[0 := 0])"
    using len by (simp add: FG_eval_def wr_def)
  show ok: "snd (FG_eval oob coeffs fg vars) = None"
    unfolding eval
    using fg_loop_ok [of vars coeffs oob r "fg[0 := 0]" 0] assms(1,2) r len(2) by blast
  then have "fg_loop oob coeffs vars 0 (fg[0 := 0]) = (?g, None)"
    unfolding eval by (simp add: prod_eq_iff)
  from fg_loop_values [OF this _ assms(5)] obtain fgA fgB
    where bodyA: "fg_body oob coeffs vars t fgA = Inr fgB"
      and same: "\<forall>i\<in>slots (unat t). ?g ! i = fgB ! i"
    by auto
  from same have "?g ! (1 + unat t) = fgB ! (1 + unat t)"
    "?g ! (11 + unat t) = fgB ! (11 + unat t)" "?g ! (21 + unat t) = fgB ! (21 + unat t)"
    "?g ! (31 + unat t) = fgB ! (31 + unat t)" "?g ! (41 + unat t) = fgB ! (41 + unat t)"
    "?g ! (51 + unat t) = fgB ! (51 + unat t)"
    by (simp_all add: slots_def)
  with fg_body_values [OF bodyA assms(1,4,5)]
  show "residuals_as_specified coeffs vars t ?g"
    unfolding residuals_as_specified_iff [OF assms(5)] by (simp add: Let_def)
qed



section \<open>The bounds\<close>

text \<open>
  Claim C5 says that the bounds of every steering entry are symmetric about zero and within
  the steering limit of 25 degrees (0.436332 rad) scaled by \<open>Lf\<close>. The lower bound is
  \<open>- 0.436332 * Lf\<close> and the upper bound is \<open>0.43632 * Lf\<close>: both are within the limit, and
  they are not symmetric.
\<close>

theorem steering_bounds:
  assumes "unat delta_start \<le> i" and "i < unat a_start"
  shows "vars_lowerbound ! i = - (436332 / 1000000) * Lf \<and>
         vars_upperbound ! i = 43632 / 100000 * Lf \<and>
         vars_lowerbound ! i \<noteq> - vars_upperbound ! i \<and>
         \<bar>vars_lowerbound ! i\<bar> \<le> 436332 / 1000000 * Lf \<and>
         \<bar>vars_upperbound ! i\<bar> \<le> 436332 / 1000000 * Lf"
  using assms by (simp add: unat_consts vars_lowerbound_nth vars_upperbound_nth Lf_def)

theorem steering_bounds_witness:
  "unat delta_start \<le> 60 \<and> 60 < unat a_start \<and>
   vars_lowerbound ! 60 = - (436332 / 1000000) * Lf \<and>
   vars_upperbound ! 60 = 43632 / 100000 * Lf \<and>
   vars_lowerbound ! 60 \<noteq> - vars_upperbound ! 60"
  using steering_bounds [of 60] by (simp add: unat_consts)

text \<open>
  Claim C7: the bounds of every state entry are \<open>- 1.0e19\<close> and \<open>1.0e19\<close>, the bounds of
  every acceleration entry are \<open>- 1\<close> and \<open>1\<close>, and the lower and upper bound of a
  constraint are equal: the component of the current state in the six slots that start a
  state block, and zero in every other slot.
\<close>

theorem bounds_assembled:
  assumes "i < unat delta_start" and "unat a_start \<le> k" and "k < unat n_vars"
    and "j < unat n_constraints"
  shows "vars_lowerbound ! i = - 10000000000000000000 \<and>
         vars_upperbound ! i = 10000000000000000000 \<and>
         vars_lowerbound ! k = - 1 \<and> vars_upperbound ! k = 1 \<and>
         constraints_lowerbound x y psi v cte epsi ! j =
           (if j = unat x_start then x else if j = unat y_start then y
            else if j = unat psi_start then psi else if j = unat v_start then v
            else if j = unat cte_start then cte else if j = unat epsi_start then epsi else 0) \<and>
         constraints_upperbound x y psi v cte epsi ! j =
           constraints_lowerbound x y psi v cte epsi ! j"
  using assms
  by (simp add: unat_consts vars_lowerbound_nth vars_upperbound_nth constraints_lowerbound_nth
      constraints_upperbound_eq)

theorem bounds_assembled_witness:
  "0 < unat delta_start \<and> unat a_start \<le> 69 \<and> 69 < unat n_vars \<and> 10 < unat n_constraints \<and>
   vars_lowerbound ! 0 = - 10000000000000000000 \<and>
   vars_upperbound ! 0 = 10000000000000000000 \<and>
   vars_lowerbound ! 69 = - 1 \<and> vars_upperbound ! 69 = 1 \<and>
   constraints_lowerbound 1 2 3 4 5 6 ! 10 = 2 \<and>
   constraints_upperbound 1 2 3 4 5 6 ! 10 = 2"
  using bounds_assembled [of 0 69 10 1 2 3 4 5 6] by (simp add: unat_consts)
text \<open>
  The offsets and the lengths: the decision vector has \<open>N * 6 + (N - 1) * 2\<close> entries, six
  blocks of \<open>N\<close> entries from offset 0 and then two blocks of \<open>N - 1\<close> entries; the initial
  point and the variable bounds have that length, the constraint bounds have \<open>N * 6\<close>
  entries, and the residual slots of all steps together are \<open>1, \<dots>, N * 6\<close>.
\<close>

lemma layout_offsets:
  "unat x_start = 0 \<and> unat y_start = unat x_start + unat N \<and>
   unat psi_start = unat y_start + unat N \<and> unat v_start = unat psi_start + unat N \<and>
   unat cte_start = unat v_start + unat N \<and> unat epsi_start = unat cte_start + unat N \<and>
   unat delta_start = unat epsi_start + unat N \<and>
   unat a_start = unat delta_start + (unat N - 1) \<and>
   unat n_vars = unat a_start + (unat N - 1) \<and>
   unat n_vars = unat N * 6 + (unat N - 1) * 2 \<and>
   unat n_constraints = unat N * 6 \<and>
   length initial_vars = unat n_vars \<and> length vars_lowerbound = unat n_vars \<and>
   length vars_upperbound = unat n_vars \<and>
   length (constraints_lowerbound x y psi v cte epsi) = unat n_constraints \<and>
   length (constraints_upperbound x y psi v cte epsi) = unat n_constraints \<and>
   (\<Union> (slots ` {0..<unat N})) = {1..unat n_constraints}"
proof -
  have "(\<Union> (slots ` {0..<10})) = {1..60}" (is "?L = ?R")
  proof
    show "?L \<subseteq> ?R" by (auto simp: slots_def)
    show "?R \<subseteq> ?L"
    proof
      fix i :: nat
      assume "i \<in> ?R"
      then consider "1 \<le> i \<and> i < 11" | "11 \<le> i \<and> i < 21" | "21 \<le> i \<and> i < 31"
        | "31 \<le> i \<and> i < 41" | "41 \<le> i \<and> i < 51" | "51 \<le> i \<and> i < 61"
        by fastforce
      then show "i \<in> ?L"
      proof cases
        case 1
        then have "i - 1 \<in> {0..<10}" "i \<in> slots (i - 1)" by (auto simp: slots_def)
        then show ?thesis by blast
      next
        case 2
        then have "i - 11 \<in> {0..<10}" "i \<in> slots (i - 11)" by (auto simp: slots_def)
        then show ?thesis by blast
      next
        case 3
        then have "i - 21 \<in> {0..<10}" "i \<in> slots (i - 21)" by (auto simp: slots_def)
        then show ?thesis by blast
      next
        case 4
        then have "i - 31 \<in> {0..<10}" "i \<in> slots (i - 31)" by (auto simp: slots_def)
        then show ?thesis by blast
      next
        case 5
        then have "i - 41 \<in> {0..<10}" "i \<in> slots (i - 41)" by (auto simp: slots_def)
        then show ?thesis by blast
      next
        case 6
        then have "i - 51 \<in> {0..<10}" "i \<in> slots (i - 51)" by (auto simp: slots_def)
        then show ?thesis by blast
      qed
    qed
  qed
  then show ?thesis
    by (simp add: unat_consts initial_vars_eq vars_bounds_length constraints_length)
qed

section \<open>The returned vector\<close>

text \<open>
  Claim C9: when the solver reports success, \<open>Solve\<close> returns the entry of the solution at
  \<open>delta_start\<close>, then the entry at \<open>a_start\<close>, then pairs of entries of the \<open>x\<close> and \<open>y\<close>
  blocks; the initial point handed to the solver is all zeros.
\<close>

theorem solve_success_output:
  assumes "length state = 6"
    and "solution = solve options initial_vars vars_lowerbound vars_upperbound
       (constraints_lowerbound (state ! 0) (state ! 1) (state ! 2) (state ! 3) (state ! 4) (state ! 5))
       (constraints_upperbound (state ! 0) (state ! 1) (state ! 2) (state ! 3) (state ! 4) (state ! 5))
       (FG_eval oob coeffs)"
    and "sol_status solution = success"
    and "length (sol_x solution) = unat n_vars"
  shows "initial_vars = replicate (unat n_vars) 0 \<and>
     Solve oob solve state coeffs =
       Inr (sol_x solution ! unat delta_start # sol_x solution ! unat a_start #
            concat (map (\<lambda>i. [sol_x solution ! (unat x_start + i + 1),
                               sol_x solution ! (unat y_start + i + 1)]) [0..<unat (N - 2)]))"
proof -
  have "[0..<8] = [0, 1, 2, 3, 4, 5, 6, 7 :: nat]" by code_simp
  moreover have "unat (N - 2) = 8" by (simp add: N_def)
  moreover have "length (sol_x solution) = 78" using assms(4) by (simp add: unat_consts)
  ultimately show ?thesis
    unfolding Solve_unfold [OF assms(1)] assms(2) [symmetric]
    by (simp add: Solve_result_eq initial_vars_eq unat_consts numeral_2_eq_2 [symmetric])
qed

theorem solve_success_output_witness:
  "length [0, 0, 0, 0, 0, 0 :: real] = 6 \<and>
   sol_status (success_solver options initial_vars vars_lowerbound vars_upperbound
       (constraints_lowerbound 0 0 0 0 0 0) (constraints_upperbound 0 0 0 0 0 0)
       (FG_eval checked [0, 0, 0, 0])) = success \<and>
   length (sol_x (success_solver options initial_vars vars_lowerbound vars_upperbound
       (constraints_lowerbound 0 0 0 0 0 0) (constraints_upperbound 0 0 0 0 0 0)
       (FG_eval checked [0, 0, 0, 0]))) = unat n_vars \<and>
   initial_vars = replicate 78 0 \<and>
   Solve checked success_solver [0, 0, 0, 0, 0, 0] [0, 0, 0, 0] = Inr (replicate 18 100)"
proof -
  have "[0..<8] = [0, 1, 2, 3, 4, 5, 6, 7 :: nat]" by code_simp
  moreover have "replicate 18 (100 :: real) =
      [100, 100, 100, 100, 100, 100, 100, 100, 100, 100, 100, 100, 100, 100, 100, 100, 100, 100]"
    by code_simp
  moreover have "unat (N - 2) = 8" by (simp add: N_def)
  ultimately show ?thesis
    using solve_success_output [of "[0, 0, 0, 0, 0, 0]" _ success_solver checked "[0, 0, 0, 0]", OF _ refl]
    by (simp add: success_solver_def unat_consts)
qed

text \<open>
  Claim C10: whatever status the solver reports, \<open>Solve\<close> returns \<open>2 + 2 * (N - 2) = 18\<close>
  values of the solution: steering, acceleration, then \<open>x\<close> and \<open>y\<close> of the steps 1 to 8.
  The entries of step 0 (indices 0 and 10) and of step 9 (indices 9 and 19) are not among
  them, and the status is not part of the value.
\<close>

theorem solve_output_any_status:
  assumes "length state = 6"
    and "solution = solve options initial_vars vars_lowerbound vars_upperbound
       (constraints_lowerbound (state ! 0) (state ! 1) (state ! 2) (state ! 3) (state ! 4) (state ! 5))
       (constraints_upperbound (state ! 0) (state ! 1) (state ! 2) (state ! 3) (state ! 4) (state ! 5))
       (FG_eval oob coeffs)"
    and "length (sol_x solution) = unat n_vars"
    and "xs = sol_x solution"
  shows "Solve oob solve state coeffs =
       Inr [xs ! 60, xs ! 69, xs ! 1, xs ! 11, xs ! 2, xs ! 12, xs ! 3, xs ! 13, xs ! 4, xs ! 14,
            xs ! 5, xs ! 15, xs ! 6, xs ! 16, xs ! 7, xs ! 17, xs ! 8, xs ! 18] \<and>
     2 + 2 * (unat N - 2) = (18 :: nat)"
  unfolding Solve_unfold [OF assms(1)] assms(2) [symmetric] assms(4)
  using assms(3) by (simp add: Solve_result_eq unat_consts)

theorem solve_output_any_status_witness:
  "length [0, 0, 0, 0, 0, 0 :: real] = 6 \<and>
   length (sol_x (infeasible_solver options initial_vars vars_lowerbound vars_upperbound
       (constraints_lowerbound 0 0 0 0 0 0) (constraints_upperbound 0 0 0 0 0 0)
       (FG_eval checked [0, 0, 0, 0]))) = unat n_vars \<and>
   sol_status (infeasible_solver options initial_vars vars_lowerbound vars_upperbound
       (constraints_lowerbound 0 0 0 0 0 0) (constraints_upperbound 0 0 0 0 0 0)
       (FG_eval checked [0, 0, 0, 0])) = local_infeasibility \<and>
   Solve checked infeasible_solver [0, 0, 0, 0, 0, 0] [0, 0, 0, 0] =
     Inr [100, 100, 100, 100, 100, 100, 100, 100, 100, 100, 100, 100, 100, 100, 100, 100, 100, 100]"
  using solve_output_any_status [of "[0, 0, 0, 0, 0, 0]" _ infeasible_solver checked "[0, 0, 0, 0]" _, OF _ refl _ refl]
  by (simp add: infeasible_solver_def unat_consts)

text \<open>
  Claim C4 says that a status other than success is surfaced and that the steering and the
  acceleration are validated before they are returned. \<open>Solve\<close> computes \<open>ok\<close> and does not
  read it, and it validates nothing: a solver that reports an infeasible problem with a
  steering and an acceleration of 100 gets the same vector returned as one that reports
  success, and that vector carries the two values of 100, above their upper bounds.
\<close>

theorem failure_returned_as_command:
  "sol_status (infeasible_solver options initial_vars vars_lowerbound vars_upperbound
       (constraints_lowerbound 0 0 0 0 0 0) (constraints_upperbound 0 0 0 0 0 0)
       (FG_eval checked [0, 0, 0, 0])) \<noteq> success \<and>
   Solve checked infeasible_solver [0, 0, 0, 0, 0, 0] [0, 0, 0, 0] =
     Solve checked success_solver [0, 0, 0, 0, 0, 0] [0, 0, 0, 0] \<and>
   Solve checked infeasible_solver [0, 0, 0, 0, 0, 0] [0, 0, 0, 0] =
     Inr [100, 100, 100, 100, 100, 100, 100, 100, 100, 100, 100, 100, 100, 100, 100, 100, 100, 100] \<and>
   vars_upperbound ! unat delta_start < 100 \<and> vars_upperbound ! unat a_start < 100"
  by (simp add: Solve_unfold Solve_result_eq infeasible_solver_def success_solver_def
      unat_consts vars_upperbound_nth Lf_def)

text \<open>
  Claim C4 as amended: before returning, \<open>Solve\<close> takes the steering and the acceleration
  from the solution vector and returns them unchanged as the first two values, for every
  solution vector of the specified length, within their bounds or not.
\<close>

theorem actuation_returned_unvalidated:
  assumes "length state = 6"
    and "solution = solve options initial_vars vars_lowerbound vars_upperbound
       (constraints_lowerbound (state ! 0) (state ! 1) (state ! 2) (state ! 3) (state ! 4) (state ! 5))
       (constraints_upperbound (state ! 0) (state ! 1) (state ! 2) (state ! 3) (state ! 4) (state ! 5))
       (FG_eval oob coeffs)"
    and "length (sol_x solution) = unat n_vars"
  shows "case Solve oob solve state coeffs of
           Inl e \<Rightarrow> False
         | Inr result \<Rightarrow>
             result ! 0 = sol_x solution ! unat delta_start \<and>
             result ! 1 = sol_x solution ! unat a_start"
  unfolding Solve_unfold [OF assms(1)] assms(2) [symmetric]
  using assms(3) by (simp add: Solve_result_eq unat_consts)

theorem actuation_returned_unvalidated_witness:
  "length [0, 0, 0, 0, 0, 0 :: real] = 6 \<and>
   length (sol_x (infeasible_solver options initial_vars vars_lowerbound vars_upperbound
       (constraints_lowerbound 0 0 0 0 0 0) (constraints_upperbound 0 0 0 0 0 0)
       (FG_eval checked [0, 0, 0, 0]))) = unat n_vars \<and>
   vars_upperbound ! unat delta_start < 100 \<and> vars_upperbound ! unat a_start < 100 \<and>
   (case Solve checked infeasible_solver [0, 0, 0, 0, 0, 0] [0, 0, 0, 0] of
      Inl e \<Rightarrow> False
    | Inr result \<Rightarrow> result ! 0 = 100 \<and> result ! 1 = 100)"
  using actuation_returned_unvalidated [of "[0, 0, 0, 0, 0, 0]" _ infeasible_solver checked
      "[0, 0, 0, 0]", OF _ refl]
  by (auto simp: infeasible_solver_def unat_consts vars_upperbound_nth Lf_def split: sum.splits)

end
